theory Spec2Isabelle
  imports Main
begin

section \<open>fades: argument parsing and the supervisor of \<^verbatim>\<open>src/fades/main.py\<close>\<close>

text \<open>
  The module has two functions: \<^verbatim>\<open>_parse_argv\<close>, which is pure, and \<^verbatim>\<open>go\<close>, which talks
  to the logger, the parsing, cache and envbuilder modules, \<^verbatim>\<open>subprocess\<close>, \<^verbatim>\<open>signal\<close> and
  \<^verbatim>\<open>os\<close>. The embedding of \<^verbatim>\<open>go\<close> takes everything outside the module from a record (the
  world) and returns the calls it makes, in order, as a trace, together with the table of
  signal handlers it installed and the way it ended.
\<close>

subsection \<open>Strings\<close>

text \<open>
  A Python \<^verbatim>\<open>str\<close> is a \<^typ>\<open>string\<close>. \<^verbatim>\<open>str.split()\<close> without arguments splits on runs of
  whitespace and returns no empty word; the whitespace characters of the ASCII range are
  the ones below.
\<close>

definition is_space :: "char \<Rightarrow> bool" where
  "is_space c = (c = CHR 0x09 \<or> c = CHR 0x0A \<or> c = CHR 0x0B \<or> c = CHR 0x0C \<or> c = CHR 0x0D
     \<or> c = CHR 0x1C \<or> c = CHR 0x1D \<or> c = CHR 0x1E \<or> c = CHR 0x1F \<or> c = CHR 0x20)"

fun split_from :: "string \<Rightarrow> string \<Rightarrow> string list" where
  "split_from word [] = (if word = [] then [] else [word])"
| "split_from word (c # cs) =
     (if is_space c
      then (if word = [] then split_from [] cs else word # split_from [] cs)
      else split_from (word @ [c]) cs)"

definition str_split :: "string \<Rightarrow> string list" where
  "str_split s = split_from [] s"

text \<open>\<^verbatim>\<open>os.path.join(a, b)\<close> of \<^verbatim>\<open>posixpath\<close>, for two components.\<close>

definition os_path_join :: "string \<Rightarrow> string \<Rightarrow> string" where
  "os_path_join a b =
     (if b \<noteq> [] \<and> hd b = CHR ''/'' then b
      else if a = [] \<or> last a = CHR ''/'' then a @ b
      else a @ ''/'' @ b)"

subsection \<open>Errors\<close>

text \<open>
  \<^verbatim>\<open>IndexError\<close> and \<^verbatim>\<open>KeyError\<close> are raised by the module's own subscripts. The other
  three carry the exception a collaborator raised, by name.
\<close>

type_synonym exn = string

datatype error =
    IndexError
  | KeyError
  | Raised_By_Parsing exn
  | Raised_By_Create_Venv exn
  | Raised_By_Popen exn

subsection \<open>\<^verbatim>\<open>_parse_argv\<close> (lines 68-91)\<close>

text \<open>
  The loop \<^verbatim>\<open>while argv and argv[0][0] == '-'\<close>: \<^verbatim>\<open>argv[0][0]\<close> on the empty string raises
  \<^verbatim>\<open>IndexError\<close>. The result of the loop is the options collected and what is left of
  \<^verbatim>\<open>argv\<close>.
\<close>

fun parse_loop :: "string list \<Rightarrow> string list \<Rightarrow> error + (string list \<times> string list)" where
  "parse_loop fades_options [] = Inr (fades_options, [])"
| "parse_loop fades_options (a # argv) =
     (case a of
        [] \<Rightarrow> Inl IndexError
      | c # _ \<Rightarrow>
          if c = CHR ''-'' then parse_loop (fades_options @ str_split a) argv
          else Inr (fades_options, a # argv))"

definition parse_argv :: "string list \<Rightarrow> error + (string list \<times> string \<times> string list)" where
  "parse_argv argv =
     (case parse_loop [] (drop 1 argv) of
        Inl e \<Rightarrow> Inl e
      | Inr (fades_options, rest) \<Rightarrow>
          (case rest of
             [] \<Rightarrow> Inr (fades_options, [], [])
           | child_program # child_options \<Rightarrow> Inr (fades_options, child_program, child_options)))"

text \<open>
  What the docstring and the usage text say of the same function, in their words: after
  the executable, everything starting with a \<^verbatim>\<open>-\<close> is a parameter for fades (split on
  whitespace, as a shebang line delivers several in one string), the first thing that is
  not is the child program, and everything after it is passed as is.
\<close>

definition starts_with_dash :: "string \<Rightarrow> bool" where
  "starts_with_dash a = (case a of [] \<Rightarrow> False | c # _ \<Rightarrow> c = CHR ''-'')"

definition parse_argv_doc :: "string list \<Rightarrow> string list \<times> string \<times> string list" where
  "parse_argv_doc argv =
     (let args = drop 1 argv;
          rest = dropWhile starts_with_dash args
      in (concat (map str_split (takeWhile starts_with_dash args)),
          (case rest of [] \<Rightarrow> [] | child_program # _ \<Rightarrow> child_program),
          (case rest of [] \<Rightarrow> [] | _ # child_options \<Rightarrow> child_options)))"

subsection \<open>Signals, messages and events\<close>

text \<open>
  The six signals of \<^verbatim>\<open>REDIRECTED_SIGNALS\<close> (lines 30-37), and some of the other signals a
  process can receive.
\<close>

datatype signal =
    SIGABRT | SIGFPE | SIGILL | SIGINT | SIGSEGV | SIGTERM
  | SIGHUP | SIGQUIT | SIGPIPE | SIGALRM | SIGUSR1 | SIGUSR2 | SIGCHLD | SIGCONT | SIGWINCH

definition REDIRECTED_SIGNALS :: "signal list" where
  "REDIRECTED_SIGNALS = [SIGABRT, SIGFPE, SIGILL, SIGINT, SIGSEGV, SIGTERM]"

datatype log_level = DEBUG | INFO | WARNING

datatype print_line =
    Version_Line string
  | Python_Line
  | System_Line
  | Usage_Text
  | Error_Mandatory

datatype log_msg =
    Running_Python
  | Starting_fades string
  | Overriding_quiet
  | Calling_interactive
  | Calling_child string "string list"
  | Redirecting_signal signal
  | Child_not_finished int

text \<open>A virtualenv description is a dict; \<^verbatim>\<open>go\<close> reads its key \<^verbatim>\<open>env_bin_path\<close>.\<close>

type_synonym venv = "(string \<times> string) list"

text \<open>
  One event for each call \<^verbatim>\<open>go\<close> makes outside the module. \<^verbatim>\<open>Log\<close> is the call of the
  logger's method of that level, whatever the logger then does with the message.
\<close>

datatype ('d, 'i) event =
    Print print_line
  | Logger_Set_Up log_level
  | Log log_level log_msg
  | Parse_String string
  | Parse_File string
  | VEnvsCache string
  | Get_Venv 'd
  | Create_Venv 'd
  | Store 'i venv
  | Popen "string list"
  | Signal_Signal signal
  | Kill nat signal
  | Wait nat

text \<open>
  How \<^verbatim>\<open>go\<close> ends: it returns (a value or \<^verbatim>\<open>None\<close>), calls \<^verbatim>\<open>sys.exit\<close> (with a status or
  without), lets an exception escape, or is ended by the default action of a signal it
  has no handler for.
\<close>

datatype outcome =
    Returns "int option"
  | Sys_Exit "int option"
  | Raises error
  | Default_Action signal

datatype disposition = Ignored | Terminates

record ('d, 'i) result =
  trace :: "('d, 'i) event list"
  handlers :: "signal \<rightharpoonup> (signal \<Rightarrow> ('d, 'i) event list)"
  outcome :: outcome

text \<open>
  The world: \<^verbatim>\<open>sys.argv\<close>, the collaborators' answers (\<^verbatim>\<open>Inl\<close> when the call raises), the
  signals that reach the supervisor while it waits for the child, what the runtime does
  with a signal that has no handler, and the child's return code.
\<close>

record ('d, 'i) world =
  sys_argv :: "string list"
  get_basedir :: string
  parse_string :: "string \<Rightarrow> exn + 'd"
  parse_file :: "string \<Rightarrow> exn + 'd"
  get_venv :: "'d \<Rightarrow> venv option"
  create_venv :: "'d \<Rightarrow> exn + (venv \<times> 'i)"
  popen :: "string list \<Rightarrow> exn + nat"
  arrivals :: "signal list"
  default_action :: "signal \<Rightarrow> disposition"
  returncode :: int

subsection \<open>\<^verbatim>\<open>go\<close> (lines 94-173)\<close>

definition stop :: "('d, 'i) event list \<Rightarrow> outcome \<Rightarrow> ('d, 'i) result" where
  "stop t oc = \<lparr>trace = t, handlers = Map.empty, outcome = oc\<rparr>"

definition after :: "('d, 'i) event list \<Rightarrow> ('d, 'i) result \<Rightarrow> ('d, 'i) result" where
  "after t r = r\<lparr>trace := t @ trace r\<rparr>"

text \<open>The closure \<^verbatim>\<open>_signal_handler\<close> (lines 161-164), for the child \<^verbatim>\<open>p\<close> it captures.\<close>

definition signal_handler :: "nat \<Rightarrow> signal \<Rightarrow> ('d, 'i) event list" where
  "signal_handler pid signum = [Log DEBUG (Redirecting_signal signum), Kill pid signum]"

text \<open>The loop of lines 167-168: \<^verbatim>\<open>signal.signal(s, _signal_handler)\<close> for each signal.\<close>

fun redirect ::
  "nat \<Rightarrow> signal list \<Rightarrow> (signal \<rightharpoonup> (signal \<Rightarrow> ('d, 'i) event list))
     \<Rightarrow> (signal \<rightharpoonup> (signal \<Rightarrow> ('d, 'i) event list))" where
  "redirect pid [] h = h"
| "redirect pid (s # ss) h = redirect pid ss (h(s \<mapsto> signal_handler pid))"

text \<open>
  \<^verbatim>\<open>p.wait()\<close> (line 171): the supervisor blocks until the child ends. A signal that
  arrives meanwhile runs its handler and the wait goes on; a signal without a handler is
  left to the runtime's default.
\<close>

fun wait ::
  "(signal \<rightharpoonup> (signal \<Rightarrow> ('d, 'i) event list)) \<Rightarrow> (signal \<Rightarrow> disposition) \<Rightarrow> signal list \<Rightarrow> int
     \<Rightarrow> ('d, 'i) event list \<times> (signal + int)" where
  "wait h dflt [] rc = ([], Inr rc)"
| "wait h dflt (s # ss) rc =
     (case h s of
        Some handler \<Rightarrow> (let (t, r) = wait h dflt ss rc in (handler s @ t, r))
      | None \<Rightarrow>
          (case dflt s of
             Ignored \<Rightarrow> wait h dflt ss rc
           | Terminates \<Rightarrow> ([], Inl s)))"

text \<open>Lines 170-173: wait for the child, log a return code that is not zero, end.\<close>

definition wait_child ::
  "('d, 'i) world \<Rightarrow> (signal \<rightharpoonup> (signal \<Rightarrow> ('d, 'i) event list)) \<Rightarrow> nat \<Rightarrow> ('d, 'i) result" where
  "wait_child w h pid =
     (case wait h (default_action w) (arrivals w) (returncode w) of
        (t, Inl s) \<Rightarrow> \<lparr>trace = Wait pid # t, handlers = h, outcome = Default_Action s\<rparr>
      | (t, Inr rc) \<Rightarrow>
          \<lparr>trace = Wait pid # t @ (if rc \<noteq> 0 then [Log DEBUG (Child_not_finished rc)] else []),
           handlers = h, outcome = Returns None\<rparr>)"

text \<open>Lines 150-173: launch the child in the virtualenv and supervise it.\<close>

definition run_child ::
  "('d, 'i) world \<Rightarrow> bool \<Rightarrow> string \<Rightarrow> string list \<Rightarrow> venv \<Rightarrow> ('d, 'i) result" where
  "run_child w interactive child_program child_options venv_data =
     (case map_of venv_data ''env_bin_path'' of
        None \<Rightarrow> stop [] (Raises KeyError)
      | Some env_bin_path \<Rightarrow>
          (let python_exe = os_path_join env_bin_path ''python3'' in
           if interactive then
             (case popen w [python_exe] of
                Inl e \<Rightarrow>
                  stop [Log DEBUG Calling_interactive, Popen [python_exe]]
                    (Raises (Raised_By_Popen e))
              | Inr pid \<Rightarrow>
                  after [Log DEBUG Calling_interactive, Popen [python_exe]]
                    (wait_child w Map.empty pid))
           else
             (let args = [python_exe, child_program] @ child_options;
                  t = [Log DEBUG (Calling_child child_program child_options), Popen args]
              in case popen w args of
                   Inl e \<Rightarrow> stop t (Raises (Raised_By_Popen e))
                 | Inr pid \<Rightarrow>
                     after (t @ map Signal_Signal REDIRECTED_SIGNALS)
                       (wait_child w (redirect pid REDIRECTED_SIGNALS Map.empty) pid))))"

text \<open>Lines 142-148: look the dependencies up in the cache, build on a miss and store.\<close>

definition resolve_venv :: "('d, 'i) world \<Rightarrow> 'd \<Rightarrow> ('d, 'i) event list \<times> (error + venv)" where
  "resolve_venv w requested_deps =
     (let t = [VEnvsCache (os_path_join (get_basedir w) ''venvs.idx''), Get_Venv requested_deps]
      in case get_venv w requested_deps of
           Some venv_data \<Rightarrow> (t, Inr venv_data)
         | None \<Rightarrow>
             (case create_venv w requested_deps of
                Inl e \<Rightarrow> (t @ [Create_Venv requested_deps], Inl (Raised_By_Create_Venv e))
              | Inr (venv_data, installed) \<Rightarrow>
                  (t @ [Create_Venv requested_deps, Store installed venv_data], Inr venv_data)))"

text \<open>Lines 98-173, once \<^verbatim>\<open>_parse_argv\<close> has returned.\<close>

definition go_parsed ::
  "string \<Rightarrow> ('d, 'i) world \<Rightarrow> string list \<Rightarrow> string \<Rightarrow> string list \<Rightarrow> ('d, 'i) result" where
  "go_parsed version w fades_options child_program child_options =
     (if ''-V'' \<in> set fades_options \<or> ''--version'' \<in> set fades_options then
        stop [Print (Version_Line version), Print Python_Line, Print System_Line] (Sys_Exit None)
      else if ''-h'' \<in> set fades_options \<or> ''--help'' \<in> set fades_options then
        stop [Print Usage_Text] (Sys_Exit None)
      else
        (let verbose = (''-v'' \<in> set fades_options \<or> ''--verbose'' \<in> set fades_options);
             quiet = (''-q'' \<in> set fades_options \<or> ''--quiet'' \<in> set fades_options);
             interactive = (''-i'' \<in> set fades_options \<or> ''--interactive'' \<in> set fades_options)
         in if child_program = [] then
              stop [Print Error_Mandatory, Print Usage_Text] (Sys_Exit None)
            else
              (let log_level = (if verbose then DEBUG else if quiet then WARNING else INFO);
                   t = [Logger_Set_Up log_level, Log DEBUG Running_Python,
                        Log DEBUG (Starting_fades version)]
                       @ (if verbose \<and> quiet then [Log WARNING Overriding_quiet] else [])
                       @ [if interactive then Parse_String child_program
                          else Parse_File child_program]
               in case (if interactive then parse_string w child_program
                        else parse_file w child_program) of
                    Inl e \<Rightarrow> stop t (Raises (Raised_By_Parsing e))
                  | Inr requested_deps \<Rightarrow>
                      (case resolve_venv w requested_deps of
                         (t', Inl e) \<Rightarrow> stop (t @ t') (Raises e)
                       | (t', Inr venv_data) \<Rightarrow>
                           after (t @ t')
                             (run_child w interactive child_program child_options venv_data)))))"

text \<open>
  \<^verbatim>\<open>go(version, argv)\<close>: line 96 parses \<^verbatim>\<open>sys.argv\<close>, not the parameter \<^verbatim>\<open>argv\<close>.
\<close>

definition go :: "string \<Rightarrow> string list \<Rightarrow> ('d, 'i) world \<Rightarrow> ('d, 'i) result" where
  "go version argv w =
     (case parse_argv (sys_argv w) of
        Inl e \<Rightarrow> stop [] (Raises e)
      | Inr (fades_options, child_program, child_options) \<Rightarrow>
          go_parsed version w fades_options child_program child_options)"

subsection \<open>Reading a run\<close>

text \<open>
  The mode the command line selects (line 110), the calls of one kind in a trace, and
  the status a run hands to the caller of \<^verbatim>\<open>go\<close>: the value it returns or the argument of
  \<^verbatim>\<open>sys.exit\<close>.
\<close>

definition interactive_mode :: "('d, 'i) world \<Rightarrow> bool" where
  "interactive_mode w =
     (case parse_argv (sys_argv w) of
        Inl _ \<Rightarrow> False
      | Inr (fades_options, _, _) \<Rightarrow>
          ''-i'' \<in> set fades_options \<or> ''--interactive'' \<in> set fades_options)"

fun kills :: "('d, 'i) event list \<Rightarrow> (nat \<times> signal) list" where
  "kills [] = []"
| "kills (Kill pid s # es) = (pid, s) # kills es"
| "kills (_ # es) = kills es"

fun installs :: "('d, 'i) event list \<Rightarrow> signal list" where
  "installs [] = []"
| "installs (Signal_Signal s # es) = s # installs es"
| "installs (_ # es) = installs es"

fun waits :: "('d, 'i) event list \<Rightarrow> nat list" where
  "waits [] = []"
| "waits (Wait pid # es) = pid # waits es"
| "waits (_ # es) = waits es"

fun popens :: "('d, 'i) event list \<Rightarrow> string list list" where
  "popens [] = []"
| "popens (Popen args # es) = args # popens es"
| "popens (_ # es) = popens es"

fun cache_calls :: "('d, 'i) event list \<Rightarrow> ('d, 'i) event list" where
  "cache_calls [] = []"
| "cache_calls (Get_Venv d # es) = Get_Venv d # cache_calls es"
| "cache_calls (Create_Venv d # es) = Create_Venv d # cache_calls es"
| "cache_calls (Store i v # es) = Store i v # cache_calls es"
| "cache_calls (_ # es) = cache_calls es"

definition reported_status :: "outcome \<Rightarrow> int option" where
  "reported_status oc = (case oc of Returns v \<Rightarrow> v | Sys_Exit v \<Rightarrow> v | _ \<Rightarrow> None)"

text \<open>The events of lines 98-140: prints, logging and the parsing of the dependencies.\<close>

fun preamble :: "('d, 'i) event \<Rightarrow> bool" where
  "preamble (Print _) = True"
| "preamble (Logger_Set_Up _) = True"
| "preamble (Log _ _) = True"
| "preamble (Parse_String _) = True"
| "preamble (Parse_File _) = True"
| "preamble _ = False"

text \<open>A table all of whose handlers are the closure for the child \<open>pid\<close>.\<close>

definition forwards_only :: "nat \<Rightarrow> (signal \<rightharpoonup> (signal \<Rightarrow> ('d, 'i) event list)) \<Rightarrow> bool" where
  "forwards_only pid h = (\<forall>s f. h s = Some f \<longrightarrow> f = signal_handler pid)"

subsection \<open>Two command lines\<close>

text \<open>
  \<^verbatim>\<open>fades -v x.py -a "b c"\<close> with an empty cache, and \<^verbatim>\<open>fades -i requests\<close> with the
  environment in the cache. An interrupt and a terminate reach the supervisor while it
  waits, and the child ends with code 7.
\<close>

definition script_world :: "(nat, nat) world" where
  "script_world =
     \<lparr>sys_argv = [''fades'', ''-v'', ''x.py'', ''-a'', ''b c''],
      get_basedir = ''/home/u/.fades'',
      parse_string = (\<lambda>_. Inr 1),
      parse_file = (\<lambda>_. Inr 2),
      get_venv = (\<lambda>_. None),
      create_venv = (\<lambda>_. Inr ([(''env_bin_path'', ''/venv/bin'')], 5)),
      popen = (\<lambda>_. Inr 4242),
      arrivals = [SIGINT, SIGTERM],
      default_action = (\<lambda>_. Terminates),
      returncode = 7\<rparr>"

definition interactive_world :: "(nat, nat) world" where
  "interactive_world =
     \<lparr>sys_argv = [''fades'', ''-i'', ''requests''],
      get_basedir = ''/home/u/.fades'',
      parse_string = (\<lambda>_. Inr 1),
      parse_file = (\<lambda>_. Inr 2),
      get_venv = (\<lambda>_. Some [(''env_bin_path'', ''/venv/bin'')]),
      create_venv = (\<lambda>_. Inl ''unused''),
      popen = (\<lambda>_. Inr 4242),
      arrivals = [],
      default_action = (\<lambda>_. Terminates),
      returncode = 0\<rparr>"

section \<open>Properties of \<^verbatim>\<open>_parse_argv\<close>\<close>

lemma str_split_example:
  "str_split ''  -v\<newline>-q  --x=1 '' = [''-v'', ''-q'', ''--x=1'']"
  by (simp add: str_split_def is_space_def)

lemma parse_argv_example:
  "parse_argv [''fades'', ''-v -q'', ''x.py'', ''-a'', ''b c''] =
     Inr ([''-v'', ''-q''], ''x.py'', [''-a'', ''b c''])"
  by (simp add: parse_argv_def str_split_def is_space_def)

lemma parse_loop_total:
  "[] \<notin> set argv \<Longrightarrow> \<exists>r. parse_loop fo argv = Inr r"
  by (induction argv arbitrary: fo) (auto split: list.splits)

lemma parse_loop_doc:
  "parse_loop fo argv = Inr (fo', rest) \<Longrightarrow>
     fo' = fo @ concat (map str_split (takeWhile starts_with_dash argv)) \<and>
     rest = dropWhile starts_with_dash argv"
proof (induction argv arbitrary: fo)
  case Nil
  then show ?case by simp
next
  case (Cons a argv)
  show ?case
  proof (cases a)
    case Nil
    with Cons.prems show ?thesis by simp
  next
    case (Cons c cs)
    show ?thesis
    proof (cases "c = CHR ''-''")
      case True
      with Cons.prems Cons have "parse_loop (fo @ str_split a) argv = Inr (fo', rest)"
        by simp
      from Cons.IH [OF this] True Cons show ?thesis
        by (simp add: starts_with_dash_def)
    next
      case False
      with Cons.prems Cons have "fo' = fo" and "rest = a # argv"
        by simp_all
      with False Cons show ?thesis
        by (simp add: starts_with_dash_def)
    qed
  qed
qed

lemma parse_argv_returns_doc:
  assumes "parse_argv argv = Inr r"
  shows "r = parse_argv_doc argv"
proof -
  from assms obtain fo rest where loop: "parse_loop [] (drop 1 argv) = Inr (fo, rest)"
    by (auto simp: parse_argv_def split: sum.splits)
  from parse_loop_doc [OF loop]
  have fo: "fo = concat (map str_split (takeWhile starts_with_dash (drop 1 argv)))"
    and rest: "rest = dropWhile starts_with_dash (drop 1 argv)"
    by simp_all
  from assms loop have "r = (fo, case rest of [] \<Rightarrow> [] | p # _ \<Rightarrow> p, case rest of [] \<Rightarrow> [] | _ # os \<Rightarrow> os)"
    by (cases rest) (auto simp: parse_argv_def)
  with fo rest show ?thesis
    by (simp add: parse_argv_doc_def Let_def)
qed

lemma parse_argv_raises_iff:
  "parse_argv argv = Inl e \<longleftrightarrow>
     e = IndexError \<and> (\<exists>rest. dropWhile starts_with_dash (drop 1 argv) = [] # rest)"
proof -
  have loop: "parse_loop fo xs = Inl e \<longleftrightarrow>
      e = IndexError \<and> (\<exists>rest. dropWhile starts_with_dash xs = [] # rest)" for fo xs
  proof (induction xs arbitrary: fo)
    case Nil
    show ?case by simp
  next
    case (Cons a xs)
    show ?case
    proof (cases a)
      case Nil
      then show ?thesis by (auto simp: starts_with_dash_def)
    next
      case (Cons c cs)
      with Cons.IH show ?thesis by (simp add: starts_with_dash_def)
    qed
  qed
  show ?thesis
    using loop [of "[]" "drop 1 argv"]
    by (auto simp: parse_argv_def split: sum.splits list.splits prod.splits)
qed

text \<open>
  C9: \<^verbatim>\<open>_parse_argv\<close> is not total. Whenever the element after the executable name is
  the empty string, \<^verbatim>\<open>argv[0][0]\<close> raises \<^verbatim>\<open>IndexError\<close>; whenever none of the elements
  after the executable name is empty, it returns a result.
\<close>

theorem parse_argv_not_total:
  "parse_argv (exe # [] # rest) = Inl IndexError \<and>
   ([] \<notin> set (drop 1 argv) \<longrightarrow> (\<exists>r. parse_argv argv = Inr r))"
proof
  show "parse_argv (exe # [] # rest) = Inl IndexError"
    by (simp add: parse_argv_def)
  show "[] \<notin> set (drop 1 argv) \<longrightarrow> (\<exists>r. parse_argv argv = Inr r)"
  proof
    assume "[] \<notin> set (drop 1 argv)"
    then obtain fo rest where "parse_loop [] (drop 1 argv) = Inr (fo, rest)"
      using parse_loop_total [of "drop 1 argv" "[]"] by auto
    then show "\<exists>r. parse_argv argv = Inr r"
      by (cases rest) (simp_all add: parse_argv_def)
  qed
qed

theorem parse_argv_not_total_witness:
  "parse_argv [''fades'', [], ''x.py''] = Inl IndexError \<and>
   [] \<notin> set (drop 1 [''fades'', ''-v -q'', ''x.py'', ''-a'']) \<and>
   (\<exists>r. parse_argv [''fades'', ''-v -q'', ''x.py'', ''-a''] = Inr r)"
  using parse_argv_not_total [of "''fades''" "[''x.py'']" "[''fades'', ''-v -q'', ''x.py'', ''-a'']"]
  by simp

text \<open>
  C10: the docstring's rule gives a result for every argv. At \<^verbatim>\<open>['fades', '']\<close> the first
  argument does not begin with \<^verbatim>\<open>-\<close>, so by the rule it is the child program and there
  are no options; \<^verbatim>\<open>_parse_argv\<close> raises \<^verbatim>\<open>IndexError\<close> there. (Everywhere
  \<^verbatim>\<open>_parse_argv\<close> returns, it returns what the rule says: \<open>parse_argv_returns_doc\<close>.)
\<close>

theorem parse_argv_empty_child_program:
  "parse_argv [''fades'', []] = Inl IndexError \<and>
   parse_argv_doc [''fades'', []] = ([], [], [])"
  by (simp add: parse_argv_def parse_argv_doc_def starts_with_dash_def)

section \<open>Properties of \<^verbatim>\<open>go\<close>\<close>

subsection \<open>Traces, handlers and the phases of a run\<close>

lemma trace_stop [simp]: "trace (stop t oc) = t"
  and handlers_stop [simp]: "handlers (stop t oc) = Map.empty"
  and outcome_stop [simp]: "outcome (stop t oc) = oc"
  by (simp_all add: stop_def)

lemma trace_after [simp]: "trace (after t r) = t @ trace r"
  and handlers_after [simp]: "handlers (after t r) = handlers r"
  and outcome_after [simp]: "outcome (after t r) = outcome r"
  by (simp_all add: after_def)

lemma after_after [simp]: "after t (after t' r) = after (t @ t') r"
  by (simp add: after_def)

lemma after_stop [simp]: "after t (stop t' oc) = stop (t @ t') oc"
  by (simp add: after_def stop_def)

lemma kills_append [simp]: "kills (xs @ ys) = kills xs @ kills ys"
  by (induction xs rule: kills.induct) simp_all

lemma installs_append [simp]: "installs (xs @ ys) = installs xs @ installs ys"
  by (induction xs rule: installs.induct) simp_all

lemma waits_append [simp]: "waits (xs @ ys) = waits xs @ waits ys"
  by (induction xs rule: waits.induct) simp_all

lemma popens_append [simp]: "popens (xs @ ys) = popens xs @ popens ys"
  by (induction xs rule: popens.induct) simp_all

lemma cache_calls_append [simp]: "cache_calls (xs @ ys) = cache_calls xs @ cache_calls ys"
  by (induction xs rule: cache_calls.induct) simp_all

lemma map_Signal_Signal [simp]:
  "installs (map Signal_Signal ss) = ss"
  "kills (map Signal_Signal ss) = []"
  "waits (map Signal_Signal ss) = []"
  "popens (map Signal_Signal ss) = []"
  "cache_calls (map Signal_Signal ss) = []"
  by (induction ss) simp_all

lemma preamble_projections:
  "list_all preamble t \<Longrightarrow>
     kills t = [] \<and> installs t = [] \<and> waits t = [] \<and> popens t = [] \<and> cache_calls t = []"
proof (induction t)
  case Nil
  show ?case by simp
next
  case (Cons e t)
  then show ?case by (cases e) simp_all
qed

lemma Wait_in_set_iff: "Wait pid \<in> set es \<longleftrightarrow> pid \<in> set (waits es)"
  by (induction es rule: waits.induct) auto

lemma Popen_in_set_iff: "Popen args \<in> set es \<longleftrightarrow> args \<in> set (popens es)"
  by (induction es rule: popens.induct) auto

lemma Signal_Signal_in_set_iff: "Signal_Signal s \<in> set es \<longleftrightarrow> s \<in> set (installs es)"
  by (induction es rule: installs.induct) auto

lemma Kill_in_set_iff: "Kill pid s \<in> set es \<longleftrightarrow> (pid, s) \<in> set (kills es)"
  by (induction es rule: kills.induct) auto

lemma cache_calls_set:
  "Get_Venv d \<in> set es \<longleftrightarrow> Get_Venv d \<in> set (cache_calls es)"
  "Create_Venv d \<in> set es \<longleftrightarrow> Create_Venv d \<in> set (cache_calls es)"
  "Store i v \<in> set es \<longleftrightarrow> Store i v \<in> set (cache_calls es)"
  by (induction es rule: cache_calls.induct) auto

lemma redirect_apply:
  "redirect pid ss h s = (if s \<in> set ss then Some (signal_handler pid) else h s)"
  by (induction ss arbitrary: h) auto

lemma forwards_only_empty [simp]: "forwards_only pid Map.empty"
  by (simp add: forwards_only_def)

lemma forwards_only_redirect [simp]: "forwards_only pid (redirect pid ss Map.empty)"
  by (simp add: forwards_only_def redirect_apply)

lemma wait_forwards_only:
  assumes "forwards_only pid h"
  shows "waits (fst (wait h d ss rc)) = [] \<and> installs (fst (wait h d ss rc)) = [] \<and>
    popens (fst (wait h d ss rc)) = [] \<and> cache_calls (fst (wait h d ss rc)) = []"
proof (induction ss)
  case Nil
  show ?case by simp
next
  case (Cons s ss)
  show ?case
  proof (cases "h s")
    case None
    with Cons show ?thesis
      by (cases "d s") simp_all
  next
    case (Some f)
    with assms have "f = signal_handler pid"
      by (simp add: forwards_only_def)
    with Some Cons show ?thesis
      by (simp add: signal_handler_def case_prod_beta)
  qed
qed

lemma wait_all_handled:
  assumes "\<forall>s\<in>set ss. h s = Some (signal_handler pid)"
  shows "wait h d ss rc = (concat (map (signal_handler pid) ss), Inr rc)"
  using assms by (induction ss) auto

lemma wait_returncode:
  "fst (wait h d ss rc) = fst (wait h d ss 0) \<and>
   snd (wait h d ss rc) = (case snd (wait h d ss 0) of Inl s \<Rightarrow> Inl s | Inr _ \<Rightarrow> Inr rc)"
proof (induction ss)
  case Nil
  show ?case by simp
next
  case (Cons s ss)
  show ?case
  proof (cases "h s")
    case None
    with Cons show ?thesis
      by (cases "d s") simp_all
  next
    case (Some f)
    with Cons show ?thesis
      by (simp add: case_prod_beta)
  qed
qed

lemma handlers_wait_child [simp]: "handlers (wait_child w h pid) = h"
  by (simp add: wait_child_def split: prod.splits sum.splits)

lemma wait_child_projections:
  assumes "forwards_only p h"
  shows "waits (trace (wait_child w h pid)) = [pid]"
    and "installs (trace (wait_child w h pid)) = []"
    and "popens (trace (wait_child w h pid)) = []"
    and "cache_calls (trace (wait_child w h pid)) = []"
  using wait_forwards_only [OF assms, of "default_action w" "arrivals w" "returncode w"]
  by (auto simp: wait_child_def split: prod.splits sum.splits)

lemma run_child_cases [case_names No_Bin_Path Popen_Raises Popen_Returns]:
  fixes w :: "('d, 'i) world"
  defines "msg \<equiv> (\<lambda>i cp co. if i then Calling_interactive else Calling_child cp co)"
  defines "args \<equiv> (\<lambda>i bin cp co. if i then [os_path_join bin ''python3'']
                     else [os_path_join bin ''python3'', cp] @ co)"
  obtains
    (No_Bin_Path) "map_of venv ''env_bin_path'' = None"
      "run_child w i cp co venv = stop [] (Raises KeyError)"
  | (Popen_Raises) bin e where "map_of venv ''env_bin_path'' = Some bin"
      "popen w (args i bin cp co) = Inl e"
      "run_child w i cp co venv =
         stop [Log DEBUG (msg i cp co), Popen (args i bin cp co)] (Raises (Raised_By_Popen e))"
  | (Popen_Returns) bin pid where "map_of venv ''env_bin_path'' = Some bin"
      "popen w (args i bin cp co) = Inr pid"
      "\<And>x y z. run_child (w\<lparr>arrivals := x, default_action := y, returncode := z\<rparr>) i cp co venv =
         after ([Log DEBUG (msg i cp co), Popen (args i bin cp co)]
                @ (if i then [] else map Signal_Signal REDIRECTED_SIGNALS))
           (wait_child (w\<lparr>arrivals := x, default_action := y, returncode := z\<rparr>)
              (if i then Map.empty else redirect pid REDIRECTED_SIGNALS Map.empty) pid)"
proof (cases "map_of venv ''env_bin_path''")
  case None
  then show ?thesis
    by (intro No_Bin_Path) (simp_all add: run_child_def)
next
  case (Some bin)
  show ?thesis
  proof (cases "popen w (args i bin cp co)")
    case (Inl e)
    with Some show ?thesis
      by (intro Popen_Raises [of bin e]) (cases i; simp add: run_child_def args_def msg_def)+
  next
    case (Inr pid)
    with Some show ?thesis
      by (intro Popen_Returns [of bin pid]) (cases i; simp add: run_child_def args_def msg_def)+
  qed
qed

lemma resolve_venv_wait_fields [simp]:
  "resolve_venv (w\<lparr>arrivals := x, default_action := y, returncode := z\<rparr>) d = resolve_venv w d"
  by (simp add: resolve_venv_def Let_def split: option.splits)

lemma resolve_venv_cases [case_names Hit Build_Error Built]:
  obtains
    (Hit) venv where "get_venv w d = Some venv"
      "resolve_venv w d =
         ([VEnvsCache (os_path_join (get_basedir w) ''venvs.idx''), Get_Venv d], Inr venv)"
  | (Build_Error) e where "get_venv w d = None" "create_venv w d = Inl e"
      "resolve_venv w d =
         ([VEnvsCache (os_path_join (get_basedir w) ''venvs.idx''), Get_Venv d, Create_Venv d],
          Inl (Raised_By_Create_Venv e))"
  | (Built) venv installed where "get_venv w d = None" "create_venv w d = Inr (venv, installed)"
      "resolve_venv w d =
         ([VEnvsCache (os_path_join (get_basedir w) ''venvs.idx''), Get_Venv d, Create_Venv d,
           Store installed venv], Inr venv)"
proof (cases "get_venv w d")
  case (Some venv)
  then show ?thesis
    by (intro Hit [of venv]) (simp_all add: resolve_venv_def)
next
  case None
  show ?thesis
  proof (cases "create_venv w d")
    case (Inl e)
    with None show ?thesis
      by (intro Build_Error [of e]) (simp_all add: resolve_venv_def)
  next
    case (Inr r)
    with None show ?thesis
      by (cases r) (simp add: resolve_venv_def Built)
  qed
qed

lemma resolve_venv_projections:
  "kills (fst (resolve_venv w d)) = []" "installs (fst (resolve_venv w d)) = []"
  "waits (fst (resolve_venv w d)) = []" "popens (fst (resolve_venv w d)) = []"
  by (cases w d rule: resolve_venv_cases; simp)+

lemma go_cases
  [case_names Parse_Error Early_Exit Deps_Error Build_Error Key_Error Launch_Error Supervised]:
  fixes w :: "('d, 'i) world"
  defines "i \<equiv> interactive_mode w"
  defines "msg \<equiv> (\<lambda>cp co. if i then Calling_interactive else Calling_child cp co)"
  defines "args \<equiv> (\<lambda>bin cp co. if i then [os_path_join bin ''python3'']
                     else [os_path_join bin ''python3'', cp] @ co)"
  obtains
    (Parse_Error) e where "parse_argv (sys_argv w) = Inl e" "go v a w = stop [] (Raises e)"
  | (Early_Exit) t where "list_all preamble t" "go v a w = stop t (Sys_Exit None)"
  | (Deps_Error) t e where "list_all preamble t"
      "go v a w = stop t (Raises (Raised_By_Parsing e))"
  | (Build_Error) t d e where "list_all preamble t" "snd (resolve_venv w d) = Inl e"
      "go v a w = stop (t @ fst (resolve_venv w d)) (Raises e)"
  | (Key_Error) t d venv where "list_all preamble t" "snd (resolve_venv w d) = Inr venv"
      "map_of venv ''env_bin_path'' = None" "go v a w = stop (t @ fst (resolve_venv w d)) (Raises KeyError)"
  | (Launch_Error) fo cp co t d venv bin e where
      "parse_argv (sys_argv w) = Inr (fo, cp, co)" "cp \<noteq> []"
      "list_all preamble t" "snd (resolve_venv w d) = Inr venv"
      "map_of venv ''env_bin_path'' = Some bin" "popen w (args bin cp co) = Inl e"
      "go v a w = stop (t @ fst (resolve_venv w d) @ [Log DEBUG (msg cp co), Popen (args bin cp co)])
                    (Raises (Raised_By_Popen e))"
  | (Supervised) fo cp co t d venv bin pid where
      "parse_argv (sys_argv w) = Inr (fo, cp, co)" "cp \<noteq> []"
      "list_all preamble t" "snd (resolve_venv w d) = Inr venv"
      "map_of venv ''env_bin_path'' = Some bin" "popen w (args bin cp co) = Inr pid"
      "go v a w =
         after (t @ fst (resolve_venv w d) @ [Log DEBUG (msg cp co), Popen (args bin cp co)]
                @ (if i then [] else map Signal_Signal REDIRECTED_SIGNALS))
           (wait_child w (if i then Map.empty else redirect pid REDIRECTED_SIGNALS Map.empty) pid)"
      "\<And>x y z. go v a (w\<lparr>arrivals := x, default_action := y, returncode := z\<rparr>) =
         after (t @ fst (resolve_venv w d) @ [Log DEBUG (msg cp co), Popen (args bin cp co)]
                @ (if i then [] else map Signal_Signal REDIRECTED_SIGNALS))
           (wait_child (w\<lparr>arrivals := x, default_action := y, returncode := z\<rparr>)
              (if i then Map.empty else redirect pid REDIRECTED_SIGNALS Map.empty) pid)"
proof (cases "parse_argv (sys_argv w)")
  case (Inl e)
  then show ?thesis
    by (intro Parse_Error [of e]) (simp_all add: go_def)
next
  case (Inr r)
  obtain fo cp co where r: "r = (fo, cp, co)"
    by (cases r) auto
  have i: "i = (''-i'' \<in> set fo \<or> ''--interactive'' \<in> set fo)"
    using Inr r by (simp add: i_def interactive_mode_def)
  have go: "go v a w' = go_parsed v w' fo cp co" if "sys_argv w' = sys_argv w" for w' :: "('d, 'i) world"
    using Inr r that by (simp add: go_def)
  define verbose where "verbose = (''-v'' \<in> set fo \<or> ''--verbose'' \<in> set fo)"
  define quiet where "quiet = (''-q'' \<in> set fo \<or> ''--quiet'' \<in> set fo)"
  define t :: "('d, 'i) event list" where "t =
     [Logger_Set_Up (if verbose then DEBUG else if quiet then WARNING else INFO),
      Log DEBUG Running_Python, Log DEBUG (Starting_fades v)]
     @ (if verbose \<and> quiet then [Log WARNING Overriding_quiet] else [])
     @ [if i then Parse_String cp else Parse_File cp]"
  have t: "list_all preamble t"
    by (simp add: t_def)
  consider (opt_version) "''-V'' \<in> set fo \<or> ''--version'' \<in> set fo"
    | (opt_help) "\<not> (''-V'' \<in> set fo \<or> ''--version'' \<in> set fo)" "''-h'' \<in> set fo \<or> ''--help'' \<in> set fo"
    | (no_child) "\<not> (''-V'' \<in> set fo \<or> ''--version'' \<in> set fo)"
        "\<not> (''-h'' \<in> set fo \<or> ''--help'' \<in> set fo)" "cp = []"
    | (run) "\<not> (''-V'' \<in> set fo \<or> ''--version'' \<in> set fo)"
        "\<not> (''-h'' \<in> set fo \<or> ''--help'' \<in> set fo)" "cp \<noteq> []"
    by blast
  then show ?thesis
  proof cases
    case opt_version
    then have "go v a w = stop [Print (Version_Line v), Print Python_Line, Print System_Line] (Sys_Exit None)"
      unfolding go [OF refl] go_parsed_def by (simp only: if_True)
    then show ?thesis
      by (intro Early_Exit [of "[Print (Version_Line v), Print Python_Line, Print System_Line]"]) simp_all
  next
    case opt_help
    then have "go v a w = stop [Print Usage_Text] (Sys_Exit None)"
      unfolding go [OF refl] go_parsed_def by (simp only: if_True if_False)
    then show ?thesis
      by (intro Early_Exit [of "[Print Usage_Text]"]) simp_all
  next
    case no_child
    then have "go v a w = stop [Print Error_Mandatory, Print Usage_Text] (Sys_Exit None)"
      unfolding go [OF refl] go_parsed_def Let_def by (simp only: if_True if_False simp_thms)
    then show ?thesis
      by (intro Early_Exit [of "[Print Error_Mandatory, Print Usage_Text]"]) simp_all
  next
    case run
    have gp: "go_parsed v w' fo cp co =
      (case (if i then parse_string w' cp else parse_file w' cp) of
         Inl e \<Rightarrow> stop t (Raises (Raised_By_Parsing e))
       | Inr deps \<Rightarrow>
           (case resolve_venv w' deps of
              (t', Inl e) \<Rightarrow> stop (t @ t') (Raises e)
            | (t', Inr venv) \<Rightarrow> after (t @ t') (run_child w' i cp co venv)))" for w' :: "('d, 'i) world"
      unfolding go_parsed_def Let_def i t_def verbose_def quiet_def
      using run by (simp only: if_False)
    show ?thesis
    proof (cases "if i then parse_string w cp else parse_file w cp")
      case (Inl e)
      then have "go v a w = stop t (Raises (Raised_By_Parsing e))"
        by (simp only: go [OF refl] gp sum.case)
      with t show ?thesis
        by (intro Deps_Error [of t e])
    next
      case deps: (Inr d)
      have deps': "(if i then parse_string (w\<lparr>arrivals := x, default_action := y, returncode := z\<rparr>) cp
          else parse_file (w\<lparr>arrivals := x, default_action := y, returncode := z\<rparr>) cp) = Inr d"
        for x y z
        using deps by (cases i) simp_all
      obtain rt rr where res: "resolve_venv w d = (rt, rr)"
        by (cases "resolve_venv w d") auto
      show ?thesis
      proof (cases rr)
        case (Inl e)
        with res deps have "go v a w = stop (t @ rt) (Raises e)"
          by (simp only: go [OF refl] gp sum.case prod.case)
        with t res Inl show ?thesis
          by (intro Build_Error [of t d e]) simp_all
      next
        case (Inr venv)
        have unfolded: "go v a (w\<lparr>arrivals := x, default_action := y, returncode := z\<rparr>) =
            after (t @ rt) (run_child (w\<lparr>arrivals := x, default_action := y, returncode := z\<rparr>) i cp co venv)"
          for x y z
          using res Inr
          by (simp only: go gp deps' resolve_venv_wait_fields sum.case prod.case)
            (simp add: go gp deps')
        have here: "go v a w = after (t @ rt) (run_child w i cp co venv)"
          using unfolded [where x = "arrivals w" and y = "default_action w" and z = "returncode w"]
          by simp
        show ?thesis
        proof (cases w i cp co venv rule: run_child_cases)
          case No_Bin_Path
          with t res Inr here show ?thesis
            by (intro Key_Error [of t d venv]) simp_all
        next
          case (Popen_Raises bin e)
          with t res Inr here run \<open>parse_argv (sys_argv w) = Inr r\<close> r show ?thesis
            by (intro Launch_Error [of fo cp co t d venv bin e]) (simp_all add: args_def msg_def)
        next
          case (Popen_Returns bin pid)
          from Popen_Returns(3) [where x = "arrivals w" and y = "default_action w" and z = "returncode w"]
          have "run_child w i cp co venv =
              after ([Log DEBUG (msg cp co), Popen (args bin cp co)]
                     @ (if i then [] else map Signal_Signal REDIRECTED_SIGNALS))
                (wait_child w (if i then Map.empty else redirect pid REDIRECTED_SIGNALS Map.empty) pid)"
            by (simp add: args_def msg_def)
          with Popen_Returns t res Inr here unfolded run \<open>parse_argv (sys_argv w) = Inr r\<close> r
          show ?thesis
            by (intro Supervised [of fo cp co t d venv bin pid]) (simp_all add: args_def msg_def)
        qed
      qed
    qed
  qed
qed

lemma resolve_venv_error:
  "snd (resolve_venv w d) = Inl e \<Longrightarrow> \<exists>x. e = Raised_By_Create_Venv x"
  by (cases w d rule: resolve_venv_cases) auto

lemma outcome_wait_child:
  "outcome (wait_child w h pid) = Returns None \<or> (\<exists>s. outcome (wait_child w h pid) = Default_Action s)"
  by (auto simp: wait_child_def split: prod.splits sum.splits)

lemma dom_redirect: "dom (redirect pid ss Map.empty) = set ss"
  by (auto simp: redirect_apply dom_def)

subsection \<open>The two command lines, run\<close>

lemmas run_defs =
  go_def go_parsed_def parse_argv_def str_split_def is_space_def resolve_venv_def
  run_child_def wait_child_def os_path_join_def REDIRECTED_SIGNALS_def after_def stop_def
  signal_handler_def interactive_mode_def

lemma script_world_run:
  "trace (go ''1.0'' [] script_world) =
     [Logger_Set_Up DEBUG, Log DEBUG Running_Python, Log DEBUG (Starting_fades ''1.0''),
      Parse_File ''x.py'', VEnvsCache ''/home/u/.fades/venvs.idx'', Get_Venv 2, Create_Venv 2,
      Store 5 [(''env_bin_path'', ''/venv/bin'')],
      Log DEBUG (Calling_child ''x.py'' [''-a'', ''b c'']),
      Popen [''/venv/bin/python3'', ''x.py'', ''-a'', ''b c''],
      Signal_Signal SIGABRT, Signal_Signal SIGFPE, Signal_Signal SIGILL,
      Signal_Signal SIGINT, Signal_Signal SIGSEGV, Signal_Signal SIGTERM,
      Wait 4242, Log DEBUG (Redirecting_signal SIGINT), Kill 4242 SIGINT,
      Log DEBUG (Redirecting_signal SIGTERM), Kill 4242 SIGTERM,
      Log DEBUG (Child_not_finished 7)]"
  "outcome (go ''1.0'' [] script_world) = Returns None"
  "\<not> interactive_mode script_world"
  by (simp_all add: script_world_def run_defs)

lemma interactive_world_run:
  "trace (go ''1.0'' [] interactive_world) =
     [Logger_Set_Up INFO, Log DEBUG Running_Python, Log DEBUG (Starting_fades ''1.0''),
      Parse_String ''requests'', VEnvsCache ''/home/u/.fades/venvs.idx'', Get_Venv 1,
      Log DEBUG Calling_interactive, Popen [''/venv/bin/python3''], Wait 4242]"
  "outcome (go ''1.0'' [] interactive_world) = Returns None"
  "interactive_mode interactive_world"
  by (simp_all add: interactive_world_def run_defs)

lemma failed_launch_run:
  "outcome (go ''1.0'' [] (script_world\<lparr>popen := (\<lambda>_. Inl ''OSError'')\<rparr>)) =
     Raises (Raised_By_Popen ''OSError'')"
  by (simp add: script_world_def run_defs)

text \<open>
  Without a handler the signal is left to the runtime: in interactive mode an interrupt
  that reaches the supervisor while it waits ends the supervisor, and nothing is sent to
  the child.
\<close>

lemma interactive_interrupt_is_not_redirected:
  "outcome (go ''1.0'' [] (interactive_world\<lparr>arrivals := [SIGINT]\<rparr>)) = Default_Action SIGINT"
  "kills (trace (go ''1.0'' [] (interactive_world\<lparr>arrivals := [SIGINT]\<rparr>))) = []"
  by (simp_all add: interactive_world_def run_defs)

subsection \<open>The claims about \<^verbatim>\<open>go\<close>\<close>

text \<open>
  C8: \<^verbatim>\<open>go\<close> never reads its parameter \<^verbatim>\<open>argv\<close>: with the same \<^verbatim>\<open>sys.argv\<close> (and the
  same world), any two values of the parameter give the same run.
\<close>

theorem go_ignores_argv_parameter:
  "go version a1 w = go version a2 w"
  by (simp add: go_def)

text \<open>What \<^verbatim>\<open>go\<close> does read is \<^verbatim>\<open>sys.argv\<close>: with \<^verbatim>\<open>-h\<close> there, the same world gives another run.\<close>

lemma go_reads_sys_argv:
  "outcome (go ''1.0'' a (script_world\<lparr>sys_argv := [''fades'', ''-h'']\<rparr>)) = Sys_Exit None"
  "trace (go ''1.0'' a (script_world\<lparr>sys_argv := [''fades'', ''-h'']\<rparr>)) = [Print Usage_Text]"
  by (simp_all add: script_world_def run_defs)

text \<open>
  C6: when the launch of the child fails (\<^verbatim>\<open>subprocess.Popen\<close> raises and the exception leaves
  \<^verbatim>\<open>go\<close>), no signal handler has been installed: the table of handlers is empty, the trace
  has no call of \<^verbatim>\<open>signal.signal\<close>, and the failed \<^verbatim>\<open>Popen\<close> is the last call of the run.
\<close>

theorem launch_failure_precedes_handlers:
  assumes "outcome (go v a w) = Raises (Raised_By_Popen e)"
  shows "handlers (go v a w) = Map.empty \<and> installs (trace (go v a w)) = [] \<and>
    (\<exists>args. popen w args = Inl e \<and> popens (trace (go v a w)) = [args] \<and>
       last (trace (go v a w)) = Popen args)"
proof (cases v a w rule: go_cases)
  case (Parse_Error e')
  with assms parse_argv_raises_iff [of "sys_argv w" e'] show ?thesis by simp
next
  case (Early_Exit t)
  with assms show ?thesis by simp
next
  case (Deps_Error t e')
  with assms show ?thesis by simp
next
  case (Build_Error t d e')
  with assms resolve_venv_error [of w d e'] show ?thesis by auto
next
  case (Key_Error t d venv)
  with assms show ?thesis by simp
next
  case (Launch_Error fo cp co t d venv bin e')
  with assms have "e' = e" by simp
  with Launch_Error preamble_projections [of t] resolve_venv_projections [of w d]
  show ?thesis by simp
next
  case (Supervised fo cp co t d venv bin pid)
  define h :: "signal \<rightharpoonup> (signal \<Rightarrow> ('a, 'b) event list)"
    where "h = (if interactive_mode w then Map.empty else redirect pid REDIRECTED_SIGNALS Map.empty)"
  from Supervised(7) have "outcome (go v a w) = outcome (wait_child w h pid)"
    by (simp add: h_def)
  with assms outcome_wait_child [of w h pid] show ?thesis
    by auto
qed

theorem launch_failure_precedes_handlers_witness:
  "outcome (go ''1.0'' [] (script_world\<lparr>popen := (\<lambda>_. Inl ''OSError'')\<rparr>)) =
     Raises (Raised_By_Popen ''OSError'') \<and>
   handlers (go ''1.0'' [] (script_world\<lparr>popen := (\<lambda>_. Inl ''OSError'')\<rparr>)) = Map.empty \<and>
   installs (trace (go ''1.0'' [] (script_world\<lparr>popen := (\<lambda>_. Inl ''OSError'')\<rparr>))) = []"
  using launch_failure_precedes_handlers [OF failed_launch_run] failed_launch_run
  by simp

lemma go_not_waiting:
  assumes "waits (trace (go v a w)) = []"
  shows "handlers (go v a w) = Map.empty \<and> installs (trace (go v a w)) = []"
proof (cases v a w rule: go_cases)
  case (Supervised fo cp co t d venv bin pid)
  define h :: "signal \<rightharpoonup> (signal \<Rightarrow> ('a, 'b) event list)"
    where "h = (if interactive_mode w then Map.empty else redirect pid REDIRECTED_SIGNALS Map.empty)"
  have "forwards_only pid h"
    by (simp add: h_def)
  from wait_child_projections(1) [OF this, of w pid] Supervised(7) assms show ?thesis
    by (simp add: h_def)
qed (simp_all add: preamble_projections resolve_venv_projections)

lemma go_waiting:
  assumes "Wait pid \<in> set (trace (go v a w))"
  obtains t where "waits t = []" "kills t = []"
    "installs t = (if interactive_mode w then [] else REDIRECTED_SIGNALS)"
    "\<And>x y z. go v a (w\<lparr>arrivals := x, default_action := y, returncode := z\<rparr>) =
       after t (wait_child (w\<lparr>arrivals := x, default_action := y, returncode := z\<rparr>)
         (if interactive_mode w then Map.empty else redirect pid REDIRECTED_SIGNALS Map.empty) pid)"
proof (cases v a w rule: go_cases)
  case (Supervised fo cp co t d venv bin p)
  define h :: "signal \<rightharpoonup> (signal \<Rightarrow> ('a, 'b) event list)"
    where "h = (if interactive_mode w then Map.empty else redirect p REDIRECTED_SIGNALS Map.empty)"
  have "forwards_only p h"
    by (simp add: h_def)
  from wait_child_projections(1) [OF this, of w p] Supervised(3,7) assms
  have "pid = p"
    by (auto simp: h_def Wait_in_set_iff preamble_projections resolve_venv_projections
        split: if_splits)
  with Supervised show ?thesis
    by (intro that [of "t @ fst (resolve_venv w d) @ [Log DEBUG (if interactive_mode w then Calling_interactive else Calling_child cp co),
          Popen (if interactive_mode w then [os_path_join bin ''python3''] else [os_path_join bin ''python3'', cp] @ co)]
          @ (if interactive_mode w then [] else map Signal_Signal REDIRECTED_SIGNALS)"])
      (simp_all add: preamble_projections resolve_venv_projections)
qed (use assms in \<open>simp_all add: Wait_in_set_iff preamble_projections resolve_venv_projections\<close>)

lemma world_wait_fields [simp]:
  "w\<lparr>arrivals := arrivals w, default_action := default_action w, returncode := returncode w\<rparr> = w"
  by simp

lemma go_waiting_now:
  assumes "Wait pid \<in> set (trace (go v a w))"
  obtains t where "waits t = []" "kills t = []"
    "installs t = (if interactive_mode w then [] else REDIRECTED_SIGNALS)"
    "go v a w = after t (wait_child w
         (if interactive_mode w then Map.empty else redirect pid REDIRECTED_SIGNALS Map.empty) pid)"
proof -
  from assms obtain t where t: "waits t = []" "kills t = []"
    "installs t = (if interactive_mode w then [] else REDIRECTED_SIGNALS)"
    and eq: "\<And>x y z. go v a (w\<lparr>arrivals := x, default_action := y, returncode := z\<rparr>) =
       after t (wait_child (w\<lparr>arrivals := x, default_action := y, returncode := z\<rparr>)
         (if interactive_mode w then Map.empty else redirect pid REDIRECTED_SIGNALS Map.empty) pid)"
    by (rule go_waiting) blast
  from eq [where x = "arrivals w" and y = "default_action w" and z = "returncode w"] t
  show ?thesis
    by (intro that [of t]) simp_all
qed

text \<open>
  C4: \<^verbatim>\<open>REDIRECTED_SIGNALS\<close> is exactly abort, floating-point exception, illegal instruction,
  interrupt, segmentation fault and terminate. In interactive mode no handler is installed
  for any signal. In script mode, once the child runs, the signals with a handler are
  exactly these six, each with the forwarding handler for the child. In no run is there a
  handler for any other signal.
\<close>

theorem handlers_for_redirected_signals_only:
  "set REDIRECTED_SIGNALS = {SIGABRT, SIGFPE, SIGILL, SIGINT, SIGSEGV, SIGTERM} \<and>
   (interactive_mode w \<longrightarrow>
      handlers (go v a w) = Map.empty \<and> installs (trace (go v a w)) = []) \<and>
   (\<not> interactive_mode w \<longrightarrow> Wait pid \<in> set (trace (go v a w)) \<longrightarrow>
      dom (handlers (go v a w)) = set REDIRECTED_SIGNALS \<and>
      installs (trace (go v a w)) = REDIRECTED_SIGNALS \<and>
      (\<forall>s\<in>set REDIRECTED_SIGNALS. handlers (go v a w) s = Some (signal_handler pid))) \<and>
   dom (handlers (go v a w)) \<subseteq> set REDIRECTED_SIGNALS"
proof -
  have six: "set REDIRECTED_SIGNALS = {SIGABRT, SIGFPE, SIGILL, SIGINT, SIGSEGV, SIGTERM}"
    by (simp add: REDIRECTED_SIGNALS_def)
  have waiting: "handlers (go v a w) =
        (if interactive_mode w then Map.empty else redirect p REDIRECTED_SIGNALS Map.empty) \<and>
      installs (trace (go v a w)) = (if interactive_mode w then [] else REDIRECTED_SIGNALS)"
    if "Wait p \<in> set (trace (go v a w))" for p
  proof -
    from that obtain t where t: "installs t = (if interactive_mode w then [] else REDIRECTED_SIGNALS)"
      and eq: "go v a w = after t (wait_child w
         (if interactive_mode w then Map.empty else redirect p REDIRECTED_SIGNALS Map.empty) p)"
      by (rule go_waiting_now) blast
    have "forwards_only p (if interactive_mode w then Map.empty else redirect p REDIRECTED_SIGNALS Map.empty)"
      by simp
    from wait_child_projections(2) [OF this, of w p] t eq show ?thesis
      by simp
  qed
  have not_waiting: "handlers (go v a w) = Map.empty \<and> installs (trace (go v a w)) = []"
    if "\<And>p. Wait p \<notin> set (trace (go v a w))"
  proof -
    from that have "waits (trace (go v a w)) = []"
      by (cases "waits (trace (go v a w))") (auto simp: Wait_in_set_iff)
    then show ?thesis by (rule go_not_waiting)
  qed
  have inter: "handlers (go v a w) = Map.empty \<and> installs (trace (go v a w)) = []"
    if "interactive_mode w"
  proof (cases "\<exists>p. Wait p \<in> set (trace (go v a w))")
    case True
    then obtain p where "Wait p \<in> set (trace (go v a w))" ..
    from waiting [OF this] that show ?thesis by simp
  next
    case False
    then show ?thesis by (intro not_waiting) blast
  qed
  have script: "dom (handlers (go v a w)) = set REDIRECTED_SIGNALS \<and>
      installs (trace (go v a w)) = REDIRECTED_SIGNALS \<and>
      (\<forall>s\<in>set REDIRECTED_SIGNALS. handlers (go v a w) s = Some (signal_handler pid))"
    if "\<not> interactive_mode w" "Wait pid \<in> set (trace (go v a w))"
    using waiting [OF that(2)] that(1) by (simp add: dom_redirect redirect_apply)
  have sub: "dom (handlers (go v a w)) \<subseteq> set REDIRECTED_SIGNALS"
  proof (cases "\<exists>p. Wait p \<in> set (trace (go v a w))")
    case True
    then obtain p where "Wait p \<in> set (trace (go v a w))" ..
    from waiting [OF this] show ?thesis
      by (simp add: dom_redirect)
  next
    case False
    then have "handlers (go v a w) = Map.empty"
      using not_waiting by blast
    then show ?thesis by simp
  qed
  from six inter script sub show ?thesis
    by blast
qed

theorem handlers_for_redirected_signals_only_witness:
  "interactive_mode interactive_world \<and>
   handlers (go ''1.0'' [] interactive_world) = Map.empty \<and>
   installs (trace (go ''1.0'' [] interactive_world)) = [] \<and>
   \<not> interactive_mode script_world \<and>
   Wait 4242 \<in> set (trace (go ''1.0'' [] script_world)) \<and>
   dom (handlers (go ''1.0'' [] script_world)) = {SIGABRT, SIGFPE, SIGILL, SIGINT, SIGSEGV, SIGTERM} \<and>
   installs (trace (go ''1.0'' [] script_world)) = [SIGABRT, SIGFPE, SIGILL, SIGINT, SIGSEGV, SIGTERM] \<and>
   handlers (go ''1.0'' [] script_world) SIGINT = Some (signal_handler 4242)"
  using handlers_for_redirected_signals_only [of interactive_world "''1.0''" "[]" 4242]
    handlers_for_redirected_signals_only [of script_world "''1.0''" "[]" 4242]
    interactive_world_run(3) script_world_run(3)
  by (simp add: script_world_run(1) REDIRECTED_SIGNALS_def)

text \<open>
  C2: in script mode, while the supervisor waits for the child, every signal of the
  redirected set that reaches it is sent to the child with the same signal number, in the
  order of arrival, and the supervisor does not act on it: the run is the run without the
  signals with the handlers' calls added during the wait, and it ends as that run does,
  by returning once the child has ended.
\<close>

theorem redirected_signals_reach_the_child:
  assumes "\<not> interactive_mode w"
    and "Wait pid \<in> set (trace (go v a w))"
    and "set (arrivals w) \<subseteq> set REDIRECTED_SIGNALS"
  shows "kills (trace (go v a w)) = map (Pair pid) (arrivals w) \<and>
    outcome (go v a w) = Returns None \<and>
    outcome (go v a w) = outcome (go v a (w\<lparr>arrivals := []\<rparr>)) \<and>
    (\<exists>t0 t1. trace (go v a (w\<lparr>arrivals := []\<rparr>)) = t0 @ Wait pid # t1 \<and>
       trace (go v a w) = t0 @ Wait pid # concat (map (signal_handler pid) (arrivals w)) @ t1)"
proof -
  define h :: "signal \<rightharpoonup> (signal \<Rightarrow> ('a, 'b) event list)"
    where "h = redirect pid REDIRECTED_SIGNALS Map.empty"
  from assms(2) obtain t where t: "kills t = []"
    and eq: "\<And>x y z. go v a (w\<lparr>arrivals := x, default_action := y, returncode := z\<rparr>) =
       after t (wait_child (w\<lparr>arrivals := x, default_action := y, returncode := z\<rparr>)
         (if interactive_mode w then Map.empty else redirect pid REDIRECTED_SIGNALS Map.empty) pid)"
    by (rule go_waiting) blast
  from eq [where x = "arrivals w" and y = "default_action w" and z = "returncode w"] assms(1)
  have now: "go v a w = after t (wait_child w h pid)"
    by (simp add: h_def)
  have "w\<lparr>arrivals := [], default_action := default_action w, returncode := returncode w\<rparr>
      = w\<lparr>arrivals := []\<rparr>"
    by simp
  with eq [where x = "[]" and y = "default_action w" and z = "returncode w"] assms(1)
  have quiet: "go v a (w\<lparr>arrivals := []\<rparr>) = after t (wait_child (w\<lparr>arrivals := []\<rparr>) h pid)"
    by (simp add: h_def)
  from assms(3) have "\<forall>s\<in>set (arrivals w). h s = Some (signal_handler pid)"
    by (auto simp: h_def redirect_apply)
  then have wait: "wait h (default_action w) (arrivals w) (returncode w) =
      (concat (map (signal_handler pid) (arrivals w)), Inr (returncode w))"
    by (rule wait_all_handled)
  define t1 :: "('a, 'b) event list"
    where "t1 = (if returncode w \<noteq> 0 then [Log DEBUG (Child_not_finished (returncode w))] else [])"
  have tr: "trace (go v a w) = t @ Wait pid # concat (map (signal_handler pid) (arrivals w)) @ t1"
    and oc: "outcome (go v a w) = Returns None"
    using now wait by (simp_all add: wait_child_def t1_def)
  have tr0: "trace (go v a (w\<lparr>arrivals := []\<rparr>)) = t @ Wait pid # t1"
    and oc0: "outcome (go v a (w\<lparr>arrivals := []\<rparr>)) = Returns None"
    using quiet by (simp_all add: wait_child_def t1_def)
  have k: "kills (concat (map (signal_handler pid) ss)) = map (Pair pid) ss"
    for ss :: "signal list"
    by (induction ss) (simp_all add: signal_handler_def)
  have "kills t1 = []"
    by (simp add: t1_def)
  with tr t k [of "arrivals w"] have "kills (trace (go v a w)) = map (Pair pid) (arrivals w)"
    by (simp add: t1_def)
  with oc oc0 tr tr0 show ?thesis
    by auto
qed

theorem redirected_signals_reach_the_child_witness:
  "\<not> interactive_mode script_world \<and>
   Wait 4242 \<in> set (trace (go ''1.0'' [] script_world)) \<and>
   set (arrivals script_world) \<subseteq> set REDIRECTED_SIGNALS \<and>
   arrivals script_world = [SIGINT, SIGTERM] \<and>
   kills (trace (go ''1.0'' [] script_world)) = [(4242, SIGINT), (4242, SIGTERM)] \<and>
   outcome (go ''1.0'' [] script_world) = Returns None"
proof -
  have h: "\<not> interactive_mode script_world" "Wait 4242 \<in> set (trace (go ''1.0'' [] script_world))"
    "set (arrivals script_world) \<subseteq> set REDIRECTED_SIGNALS"
    "arrivals script_world = [SIGINT, SIGTERM]"
    by (simp_all add: script_world_run) (simp_all add: script_world_def REDIRECTED_SIGNALS_def)
  from redirected_signals_reach_the_child [OF h(1,2,3)] h show ?thesis
    by simp
qed

lemma wait_Inr: "snd (wait h d ss rc) = Inr c \<Longrightarrow> c = rc"
proof (induction ss)
  case Nil
  then show ?case by simp
next
  case (Cons s ss)
  show ?case
  proof (cases "h s")
    case None
    with Cons show ?thesis
      by (cases "d s") simp_all
  next
    case (Some f)
    with Cons show ?thesis
      by (simp add: case_prod_beta)
  qed
qed

lemma wait_child_returncode:
  assumes "\<And>s. outcome (wait_child w h pid) \<noteq> Default_Action s"
  shows "outcome (wait_child w h pid) = Returns None"
    and "outcome (wait_child (w\<lparr>returncode := 0\<rparr>) h pid) = Returns None"
    and "trace (wait_child w h pid) = trace (wait_child (w\<lparr>returncode := 0\<rparr>) h pid)
           @ (if returncode w \<noteq> 0 then [Log DEBUG (Child_not_finished (returncode w))] else [])"
proof -
  define d where "d = default_action w"
  define ss where "ss = arrivals w"
  define rc where "rc = returncode w"
  obtain t r where wr: "wait h d ss rc = (t, r)"
    by (cases "wait h d ss rc") auto
  obtain t0 r0 where w0: "wait h d ss 0 = (t0, r0)"
    by (cases "wait h d ss 0") auto
  have r: "r = Inr rc"
  proof (cases r)
    case (Inl s)
    with wr have "outcome (wait_child w h pid) = Default_Action s"
      by (simp add: wait_child_def d_def ss_def rc_def)
    with assms [of s] show ?thesis by simp
  next
    case (Inr c)
    with wr wait_Inr [of h d ss rc c] show ?thesis by simp
  qed
  from wait_returncode [of h d ss rc] wr w0 r have t0: "t0 = t" and "\<exists>c. r0 = Inr c"
    by (cases r0; simp)+
  with w0 wait_Inr [of h d ss 0] have r0: "r0 = Inr 0"
    by auto
  show "outcome (wait_child w h pid) = Returns None"
    using wr r by (simp add: wait_child_def d_def ss_def rc_def)
  show "outcome (wait_child (w\<lparr>returncode := 0\<rparr>) h pid) = Returns None"
    using w0 r0 by (simp add: wait_child_def d_def ss_def)
  show "trace (wait_child w h pid) = trace (wait_child (w\<lparr>returncode := 0\<rparr>) h pid)
           @ (if returncode w \<noteq> 0 then [Log DEBUG (Child_not_finished (returncode w))] else [])"
    using wr r w0 r0 t0 by (simp add: wait_child_def d_def ss_def rc_def)
qed

text \<open>
  C7: a return code of the child that is not zero is reported by one call of the logger's
  \<^verbatim>\<open>debug\<close> and changes nothing else: the run is the run of a child that ended with 0,
  followed by that one call, and it ends by returning, not by an exception.
\<close>

theorem nonzero_exit_code_is_only_logged:
  assumes "Wait pid \<in> set (trace (go v a w))"
    and "returncode w \<noteq> 0"
    and "\<And>s. outcome (go v a w) \<noteq> Default_Action s"
  shows "trace (go v a w) =
      trace (go v a (w\<lparr>returncode := 0\<rparr>)) @ [Log DEBUG (Child_not_finished (returncode w))] \<and>
    outcome (go v a w) = Returns None \<and>
    outcome (go v a w) = outcome (go v a (w\<lparr>returncode := 0\<rparr>)) \<and>
    handlers (go v a w) = handlers (go v a (w\<lparr>returncode := 0\<rparr>))"
proof -
  define h :: "signal \<rightharpoonup> (signal \<Rightarrow> ('a, 'b) event list)"
    where "h = (if interactive_mode w then Map.empty else redirect pid REDIRECTED_SIGNALS Map.empty)"
  from assms(1) obtain t where
    eq: "\<And>x y z. go v a (w\<lparr>arrivals := x, default_action := y, returncode := z\<rparr>) =
       after t (wait_child (w\<lparr>arrivals := x, default_action := y, returncode := z\<rparr>) h pid)"
    unfolding h_def by (rule go_waiting) blast
  from eq [where x = "arrivals w" and y = "default_action w" and z = "returncode w"]
  have now: "go v a w = after t (wait_child w h pid)"
    by simp
  have "w\<lparr>arrivals := arrivals w, default_action := default_action w, returncode := 0\<rparr>
      = w\<lparr>returncode := 0\<rparr>"
    by simp
  with eq [where x = "arrivals w" and y = "default_action w" and z = 0]
  have zero: "go v a (w\<lparr>returncode := 0\<rparr>) = after t (wait_child (w\<lparr>returncode := 0\<rparr>) h pid)"
    by simp
  from assms(3) now have "\<And>s. outcome (wait_child w h pid) \<noteq> Default_Action s"
    by simp
  from wait_child_returncode [OF this] assms(2) now zero show ?thesis
    by simp
qed

theorem nonzero_exit_code_is_only_logged_witness:
  "Wait 4242 \<in> set (trace (go ''1.0'' [] script_world)) \<and>
   returncode script_world = 7 \<and>
   outcome (go ''1.0'' [] script_world) = Returns None \<and>
   trace (go ''1.0'' [] script_world) =
     trace (go ''1.0'' [] (script_world\<lparr>returncode := 0\<rparr>)) @ [Log DEBUG (Child_not_finished 7)]"
proof -
  have h: "Wait 4242 \<in> set (trace (go ''1.0'' [] script_world))"
    "returncode script_world \<noteq> 0" "returncode script_world = 7"
    "\<And>s. outcome (go ''1.0'' [] script_world) \<noteq> Default_Action s"
    by (simp_all add: script_world_run) (simp_all add: script_world_def)
  from nonzero_exit_code_is_only_logged [OF h(1,2,4)] h show ?thesis
    by simp
qed

text \<open>
  C1, as stated, fails: for \<^verbatim>\<open>fades -v x.py -a "b c"\<close> the child is launched, waited for
  and ends with code 7, and \<^verbatim>\<open>go\<close> returns \<^verbatim>\<open>None\<close>: the status it reports is not 7.
\<close>

theorem exit_code_fidelity_counterexample:
  "Wait 4242 \<in> set (trace (go ''1.0'' [] script_world)) \<and>
   returncode script_world = 7 \<and>
   outcome (go ''1.0'' [] script_world) = Returns None \<and>
   reported_status (outcome (go ''1.0'' [] script_world)) \<noteq> Some 7"
  by (simp add: script_world_run reported_status_def) (simp add: script_world_def)

text \<open>
  C1, as amended: \<^verbatim>\<open>go\<close> hands no status to its caller on any path. When the child has
  ended, \<^verbatim>\<open>go\<close> returns \<^verbatim>\<open>None\<close> whatever the child's return code is, and a return code
  that is not zero is exactly the one logged last, at debug level.
\<close>

theorem exit_code_is_not_propagated:
  "reported_status (outcome (go v a w)) = None \<and>
   (Wait pid \<in> set (trace (go v a w)) \<and> (\<forall>s. outcome (go v a w) \<noteq> Default_Action s) \<longrightarrow>
      outcome (go v a w) = Returns None \<and>
      (returncode w \<noteq> 0 \<longrightarrow> last (trace (go v a w)) = Log DEBUG (Child_not_finished (returncode w))))"
proof
  show "reported_status (outcome (go v a w)) = None"
  proof (cases v a w rule: go_cases)
    case (Supervised fo cp co t d venv bin p)
    define h :: "signal \<rightharpoonup> (signal \<Rightarrow> ('a, 'b) event list)"
      where "h = (if interactive_mode w then Map.empty else redirect p REDIRECTED_SIGNALS Map.empty)"
    from Supervised(7) have "outcome (go v a w) = outcome (wait_child w h p)"
      by (simp add: h_def)
    with outcome_wait_child [of w h p] show ?thesis
      by (auto simp: reported_status_def)
  qed (simp_all add: reported_status_def)
next
  show "Wait pid \<in> set (trace (go v a w)) \<and> (\<forall>s. outcome (go v a w) \<noteq> Default_Action s) \<longrightarrow>
      outcome (go v a w) = Returns None \<and>
      (returncode w \<noteq> 0 \<longrightarrow> last (trace (go v a w)) = Log DEBUG (Child_not_finished (returncode w)))"
  proof (intro impI, elim conjE)
    assume waiting: "Wait pid \<in> set (trace (go v a w))"
      and alive: "\<forall>s. outcome (go v a w) \<noteq> Default_Action s"
    define h :: "signal \<rightharpoonup> (signal \<Rightarrow> ('a, 'b) event list)"
      where "h = (if interactive_mode w then Map.empty else redirect pid REDIRECTED_SIGNALS Map.empty)"
    from waiting obtain t where now: "go v a w = after t (wait_child w h pid)"
      unfolding h_def by (rule go_waiting_now) blast
    with alive have "\<And>s. outcome (wait_child w h pid) \<noteq> Default_Action s"
      by simp
    from wait_child_returncode [OF this] now
    show "outcome (go v a w) = Returns None \<and>
      (returncode w \<noteq> 0 \<longrightarrow> last (trace (go v a w)) = Log DEBUG (Child_not_finished (returncode w)))"
      by simp
  qed
qed

theorem exit_code_is_not_propagated_witness:
  "Wait 4242 \<in> set (trace (go ''1.0'' [] script_world)) \<and>
   returncode script_world = 7 \<and>
   reported_status (outcome (go ''1.0'' [] script_world)) = None \<and>
   outcome (go ''1.0'' [] script_world) = Returns None \<and>
   last (trace (go ''1.0'' [] script_world)) = Log DEBUG (Child_not_finished 7)"
proof -
  have h: "Wait 4242 \<in> set (trace (go ''1.0'' [] script_world))"
    "returncode script_world = 7"
    "\<forall>s. outcome (go ''1.0'' [] script_world) \<noteq> Default_Action s"
    by (simp_all add: script_world_run) (simp_all add: script_world_def)
  from exit_code_is_not_propagated [of "''1.0''" "[]" script_world 4242] h show ?thesis
    by (simp add: reported_status_def)
qed

lemma resolve_venv_cache_calls:
  "cache_calls (fst (resolve_venv w d)) =
     Get_Venv d #
     (case get_venv w d of
        Some _ \<Rightarrow> []
      | None \<Rightarrow>
          Create_Venv d #
          (case create_venv w d of Inl _ \<Rightarrow> [] | Inr (venv, installed) \<Rightarrow> [Store installed venv]))"
  by (cases w d rule: resolve_venv_cases) simp_all

lemma go_cache_calls:
  "cache_calls (trace (go v a w)) = [] \<or>
   (\<exists>d. cache_calls (trace (go v a w)) = cache_calls (fst (resolve_venv w d)))"
proof (cases v a w rule: go_cases)
  case (Supervised fo cp co t d venv bin pid)
  define h :: "signal \<rightharpoonup> (signal \<Rightarrow> ('a, 'b) event list)"
    where "h = (if interactive_mode w then Map.empty else redirect pid REDIRECTED_SIGNALS Map.empty)"
  have "forwards_only pid h"
    by (simp add: h_def)
  from wait_child_projections(4) [OF this, of w pid] Supervised(3,7)
  have "cache_calls (trace (go v a w)) = cache_calls (fst (resolve_venv w d))"
    by (simp add: h_def preamble_projections)
  then show ?thesis by blast
next
  case (Build_Error t d e)
  then have "cache_calls (trace (go v a w)) = cache_calls (fst (resolve_venv w d))"
    by (simp add: preamble_projections)
  then show ?thesis by blast
next
  case (Key_Error t d venv)
  then have "cache_calls (trace (go v a w)) = cache_calls (fst (resolve_venv w d))"
    by (simp add: preamble_projections)
  then show ?thesis by blast
next
  case (Launch_Error fo cp co t d venv bin e)
  then have "cache_calls (trace (go v a w)) = cache_calls (fst (resolve_venv w d))"
    by (simp add: preamble_projections)
  then show ?thesis by blast
qed (simp_all add: preamble_projections)

text \<open>
  C3: once \<^verbatim>\<open>go\<close> has looked the dependencies up in the cache (\<^verbatim>\<open>venvscache.get_venv\<close>),
  \<^verbatim>\<open>envbuilder.create_venv\<close> is called if and only if the lookup returned \<^verbatim>\<open>None\<close>, for
  the same dependencies; \<^verbatim>\<open>venvscache.store\<close> is called exactly with the result of that
  build (nothing is stored when the build raises and so has no result); and on a cache
  hit the lookup is the only call to the cache or the builder.
\<close>

theorem build_and_store_exactly_on_cache_miss:
  assumes "Get_Venv d \<in> set (trace (go v a w))"
  shows "(Create_Venv d \<in> set (trace (go v a w)) \<longleftrightarrow> get_venv w d = None) \<and>
    (\<forall>d'. Create_Venv d' \<in> set (trace (go v a w)) \<longrightarrow> d' = d) \<and>
    (\<forall>installed venv. Store installed venv \<in> set (trace (go v a w)) \<longleftrightarrow>
       get_venv w d = None \<and> create_venv w d = Inr (venv, installed)) \<and>
    (get_venv w d \<noteq> None \<longrightarrow> cache_calls (trace (go v a w)) = [Get_Venv d])"
proof -
  from assms cache_calls_set(1) [of d "trace (go v a w)"]
  have "Get_Venv d \<in> set (cache_calls (trace (go v a w)))"
    by blast
  with go_cache_calls [of v a w] obtain d' where
    d': "cache_calls (trace (go v a w)) = cache_calls (fst (resolve_venv w d'))"
    by auto
  with \<open>Get_Venv d \<in> set (cache_calls (trace (go v a w)))\<close> have "d' = d"
    by (auto simp: resolve_venv_cache_calls split: option.splits sum.splits)
  with d' have cc: "cache_calls (trace (go v a w)) =
     Get_Venv d #
     (case get_venv w d of
        Some _ \<Rightarrow> []
      | None \<Rightarrow>
          Create_Venv d #
          (case create_venv w d of Inl _ \<Rightarrow> [] | Inr (venv, installed) \<Rightarrow> [Store installed venv]))"
    by (simp add: resolve_venv_cache_calls)
  have c1: "Create_Venv d \<in> set (trace (go v a w)) \<longleftrightarrow> get_venv w d = None"
    using cache_calls_set(2) [of d "trace (go v a w)"] cc
    by (auto split: option.splits sum.splits)
  have c2: "Create_Venv d'' \<in> set (trace (go v a w)) \<longrightarrow> d'' = d" for d''
    using cache_calls_set(2) [of d'' "trace (go v a w)"] cc
    by (auto split: option.splits sum.splits)
  have c3: "Store installed venv \<in> set (trace (go v a w)) \<longleftrightarrow>
       get_venv w d = None \<and> create_venv w d = Inr (venv, installed)" for installed venv
    using cache_calls_set(3) [of installed venv "trace (go v a w)"] cc
    by (auto split: option.splits sum.splits)
  have c4: "get_venv w d \<noteq> None \<longrightarrow> cache_calls (trace (go v a w)) = [Get_Venv d]"
    unfolding cc by (auto split: option.splits)
  from c1 c2 c3 c4 show ?thesis
    by blast
qed

theorem build_and_store_exactly_on_cache_miss_witness:
  "Get_Venv 2 \<in> set (trace (go ''1.0'' [] script_world)) \<and>
   get_venv script_world 2 = None \<and>
   create_venv script_world 2 = Inr ([(''env_bin_path'', ''/venv/bin'')], 5) \<and>
   Create_Venv 2 \<in> set (trace (go ''1.0'' [] script_world)) \<and>
   Store 5 [(''env_bin_path'', ''/venv/bin'')] \<in> set (trace (go ''1.0'' [] script_world)) \<and>
   Get_Venv 1 \<in> set (trace (go ''1.0'' [] interactive_world)) \<and>
   get_venv interactive_world 1 = Some [(''env_bin_path'', ''/venv/bin'')] \<and>
   Create_Venv 1 \<notin> set (trace (go ''1.0'' [] interactive_world)) \<and>
   cache_calls (trace (go ''1.0'' [] interactive_world)) = [Get_Venv 1]"
proof -
  have s: "Get_Venv 2 \<in> set (trace (go ''1.0'' [] script_world))"
    and i: "Get_Venv 1 \<in> set (trace (go ''1.0'' [] interactive_world))"
    by (simp_all add: script_world_run interactive_world_run)
  have w: "get_venv script_world 2 = None"
    "create_venv script_world 2 = Inr ([(''env_bin_path'', ''/venv/bin'')], 5)"
    "get_venv interactive_world 1 = Some [(''env_bin_path'', ''/venv/bin'')]"
    by (simp_all add: script_world_def interactive_world_def)
  from build_and_store_exactly_on_cache_miss [OF s] build_and_store_exactly_on_cache_miss [OF i] s i w
  show ?thesis
    by simp
qed

lemma parse_argv_child:
  assumes "parse_argv argv = Inr (fo, cp, co)" and "cp \<noteq> []"
  shows "cp # co = dropWhile starts_with_dash (drop 1 argv)" and "\<not> starts_with_dash cp"
proof -
  define rest where "rest = dropWhile starts_with_dash (drop 1 argv)"
  from parse_argv_returns_doc [OF assms(1)]
  have cp: "cp = (case rest of [] \<Rightarrow> [] | p # _ \<Rightarrow> p)"
    and co: "co = (case rest of [] \<Rightarrow> [] | _ # os \<Rightarrow> os)"
    by (simp_all add: parse_argv_doc_def Let_def rest_def)
  from cp co assms(2) have rest: "rest = cp # co"
    by (cases rest) simp_all
  then show "cp # co = dropWhile starts_with_dash (drop 1 argv)"
    by (simp add: rest_def)
  from rest have "hd rest = cp" and "rest \<noteq> []"
    by simp_all
  then show "\<not> starts_with_dash cp"
    unfolding rest_def using hd_dropWhile [of starts_with_dash "drop 1 argv"] by blast
qed

text \<open>
  C5: whenever \<^verbatim>\<open>go\<close> launches a child, it does so once, with \<^verbatim>\<open>python3\<close> of the
  \<^verbatim>\<open>env_bin_path\<close> of the environment resolved for the dependencies. In script mode the
  executable is followed by the child program and the child options, which together are
  the tail of \<^verbatim>\<open>sys.argv\<close> from the first argument that does not start with \<^verbatim>\<open>-\<close>; in
  interactive mode the executable is the only argument.
\<close>

theorem child_launched_with_environment_python:
  assumes "Popen args \<in> set (trace (go v a w))"
  shows "\<exists>fo cp co d venv bin.
    parse_argv (sys_argv w) = Inr (fo, cp, co) \<and>
    Get_Venv d \<in> set (trace (go v a w)) \<and>
    snd (resolve_venv w d) = Inr venv \<and>
    map_of venv ''env_bin_path'' = Some bin \<and>
    popens (trace (go v a w)) = [args] \<and>
    (interactive_mode w \<longrightarrow> args = [os_path_join bin ''python3'']) \<and>
    (\<not> interactive_mode w \<longrightarrow>
       args = os_path_join bin ''python3'' # cp # co \<and>
       cp # co = dropWhile starts_with_dash (drop 1 (sys_argv w)))"
proof -
  from assms have p: "args \<in> set (popens (trace (go v a w)))"
    by (simp add: Popen_in_set_iff)
  have g: "Get_Venv d \<in> set (fst (resolve_venv w d))" for d
    by (cases w d rule: resolve_venv_cases) simp_all
  show ?thesis
  proof (cases v a w rule: go_cases)
    case (Launch_Error fo cp co t d venv bin e)
    from Launch_Error(7,3) p
    have "popens (trace (go v a w)) = [args]"
      and "args = (if interactive_mode w then [os_path_join bin ''python3'']
                   else [os_path_join bin ''python3'', cp] @ co)"
      by (auto simp: preamble_projections resolve_venv_projections split: if_splits)
    with Launch_Error g [of d] parse_argv_child(1) [OF Launch_Error(1,2)] show ?thesis
      by (intro exI [of _ fo] exI [of _ cp] exI [of _ co] exI [of _ d] exI [of _ venv] exI [of _ bin])
        simp
  next
    case (Supervised fo cp co t d venv bin pid)
    define h :: "signal \<rightharpoonup> (signal \<Rightarrow> ('a, 'b) event list)"
      where "h = (if interactive_mode w then Map.empty else redirect pid REDIRECTED_SIGNALS Map.empty)"
    have "forwards_only pid h"
      by (simp add: h_def)
    from wait_child_projections(3) [OF this, of w pid] Supervised(7,3) p
    have "popens (trace (go v a w)) = [args]"
      and "args = (if interactive_mode w then [os_path_join bin ''python3'']
                   else [os_path_join bin ''python3'', cp] @ co)"
      by (auto simp: h_def preamble_projections resolve_venv_projections split: if_splits)
    with Supervised(1-7) g [of d] parse_argv_child(1) [OF Supervised(1,2)] show ?thesis
      by (intro exI [of _ fo] exI [of _ cp] exI [of _ co] exI [of _ d] exI [of _ venv] exI [of _ bin])
        simp
  qed (use p in \<open>simp_all add: preamble_projections resolve_venv_projections\<close>)
qed

theorem child_launched_with_environment_python_witness:
  "Popen [''/venv/bin/python3'', ''x.py'', ''-a'', ''b c''] \<in> set (trace (go ''1.0'' [] script_world)) \<and>
   sys_argv script_world = [''fades'', ''-v'', ''x.py'', ''-a'', ''b c''] \<and>
   popens (trace (go ''1.0'' [] script_world)) = [[''/venv/bin/python3'', ''x.py'', ''-a'', ''b c'']] \<and>
   Popen [''/venv/bin/python3''] \<in> set (trace (go ''1.0'' [] interactive_world)) \<and>
   popens (trace (go ''1.0'' [] interactive_world)) = [[''/venv/bin/python3'']]"
proof -
  have s: "Popen [''/venv/bin/python3'', ''x.py'', ''-a'', ''b c''] \<in> set (trace (go ''1.0'' [] script_world))"
    and i: "Popen [''/venv/bin/python3''] \<in> set (trace (go ''1.0'' [] interactive_world))"
    by (simp_all add: script_world_run interactive_world_run)
  have "sys_argv script_world = [''fades'', ''-v'', ''x.py'', ''-a'', ''b c'']"
    by (simp add: script_world_def)
  with child_launched_with_environment_python [OF s] child_launched_with_environment_python [OF i] s i
  show ?thesis
    by auto
qed

end
